theory Spec2Isabelle
  imports Main "HOL-Library.Sublist"
begin

section \<open>The script \<open>go.py\<close>: rendering a test page and opening it\<close>

text \<open>
  The script parses two boolean switches and then runs two optional steps in
  sequence:
  \<^verbatim>\<open>
  if args.test_render:
      with open('webgl-canvas.js') as f: webgl_canvas = f.read()
      with open('test.template.html') as f: contents = f.read()
      with open('test.html', 'w') as f: f.write(contents.replace('{}', webgl_canvas))

  if args.test_browser:
      webbrowser.open('test.html')
  \<close>
  The model starts after \<open>parser.parse_args()\<close>: its input is the namespace
  \<open>args\<close>, the platform and the working directory.

  All three files are opened in text mode, so a file's bytes and the \<open>str\<close>
  the script sees differ: \<open>read\<close> decodes the bytes and turns every line
  ending into a line feed, \<open>write\<close> turns every line feed into the platform's
  line separator and encodes. File contents in the model are bytes. The
  platform's encoding is taken to extend ASCII the way UTF-8 and Latin-1 do: the
  bytes of \<open>{\<close>, \<open>}\<close>, carriage return and line feed stand for these characters
  and for nothing else, and encoding undoes decoding. Replacement and line-ending
  translation touch only these characters, so the model performs them on the
  bytes.
\<close>

subsection \<open>Data\<close>

text \<open>The namespace returned by \<open>parse_args\<close>: one boolean per switch.\<close>

record args =
  test_render :: bool
  test_browser :: bool

text \<open>
  What the script takes from the Python installation: \<open>os.linesep\<close>, and which
  byte sequences the default text encoding decodes.
\<close>

record platform =
  linesep :: string
  decodable :: "string \<Rightarrow> bool"

text \<open>
  A file of the working directory: its bytes and whether the process may open it
  for reading and for writing. A path that the directory does not map is an
  absent file; creating one needs write permission on the directory.
\<close>

record text_file =
  readable :: bool
  writable :: bool
  content :: string

text \<open>
  The exceptions of the model. \<open>PermissionError\<close> stands for every \<open>OSError\<close>
  that \<open>open\<close> raises on a path it cannot open though the file exists, or cannot
  create.
\<close>

datatype py_error = FileNotFoundError | PermissionError | UnicodeDecodeError

text \<open>
  What the process asks of its environment, in the order it asks: a call of
  \<open>open(path)\<close>, a call of \<open>open(path, 'w')\<close>, a call of
  \<open>webbrowser.open(path)\<close>.
\<close>

datatype event = Open_read string | Open_write string | Browser_open string

record world =
  files :: "string \<rightharpoonup> text_file"
  dir_writable :: bool
  events :: "event list"

abbreviation CR :: char where
  "CR \<equiv> CHR 0x0D"

abbreviation LF :: char where
  "LF \<equiv> CHR 0x0A"

subsection \<open>\<open>str.replace\<close>\<close>

text \<open>
  Python's \<open>s.replace(old, new)\<close>: scanning from the left, every occurrence of
  \<open>old\<close> that does not overlap an earlier replaced one becomes \<open>new\<close>. An empty
  \<open>old\<close> matches before every character and at the end.
\<close>

function str_replace :: "string \<Rightarrow> string \<Rightarrow> string \<Rightarrow> string" where
  "str_replace [] old new = (if old = [] then new else [])"
| "str_replace (c # cs) old new =
     (if old = [] then new @ c # str_replace cs old new
      else if prefix old (c # cs)
        then new @ str_replace (drop (length old) (c # cs)) old new
      else c # str_replace cs old new)"
  by pat_completeness auto
termination
  by (relation "measure (\<lambda>(s, old, new). length s)") auto

subsection \<open>Text mode\<close>

text \<open>
  Reading with the default \<open>newline=None\<close>: a carriage return followed by a
  line feed, and a carriage return alone, each become one line feed.
\<close>

fun universal_newlines :: "string \<Rightarrow> string" where
  "universal_newlines [] = []"
| "universal_newlines [c] = [if c = CR then LF else c]"
| "universal_newlines (c # d # ds) =
     (if c = CR then
        (if d = LF then LF # universal_newlines ds
         else LF # universal_newlines (d # ds))
      else c # universal_newlines (d # ds))"

text \<open>
  Writing with the default \<open>newline=None\<close>: the text layer writes
  \<open>text.replace('\n', os.linesep)\<close>.
\<close>

definition write_newlines :: "platform \<Rightarrow> string \<Rightarrow> string" where
  "write_newlines pf s = str_replace s [LF] (linesep pf)"

subsection \<open>File operations\<close>

text \<open>
  \<open>with open(p) as f: x = f.read()\<close>. The file is opened, then all of it is
  decoded, which fails on bytes the encoding does not have.
\<close>

definition read_file ::
  "platform \<Rightarrow> string \<Rightarrow> world \<Rightarrow> (py_error + string) \<times> world" where
  "read_file pf p w =
     (let w' = w\<lparr>events := events w @ [Open_read p]\<rparr> in
      case files w p of
        None \<Rightarrow> (Inl FileNotFoundError, w')
      | Some f \<Rightarrow>
          if \<not> readable f then (Inl PermissionError, w')
          else if \<not> decodable pf (content f) then (Inl UnicodeDecodeError, w')
          else (Inr (universal_newlines (content f)), w'))"

text \<open>
  \<open>with open(p, 'w') as f: f.write(s)\<close>: an absent file is created if the
  directory allows it, an existing one is truncated if it may be written; then
  the file holds \<open>s\<close> with the platform's line separators.
\<close>

definition write_file ::
  "platform \<Rightarrow> string \<Rightarrow> string \<Rightarrow> world \<Rightarrow> (py_error + unit) \<times> world" where
  "write_file pf p s w =
     (let w' = w\<lparr>events := events w @ [Open_write p]\<rparr> in
      case files w p of
        None \<Rightarrow>
          if dir_writable w
          then (Inr (), w'\<lparr>files := (files w)(p \<mapsto>
                  \<lparr>readable = True, writable = True,
                   content = write_newlines pf s\<rparr>)\<rparr>)
          else (Inl PermissionError, w')
      | Some f \<Rightarrow>
          if writable f
          then (Inr (), w'\<lparr>files := (files w)(p \<mapsto>
                  f\<lparr>content := write_newlines pf s\<rparr>)\<rparr>)
          else (Inl PermissionError, w'))"

subsection \<open>The two steps and the script\<close>

text \<open>The body of \<open>if args.test_render:\<close>. An exception ends it at once.\<close>

definition render_step :: "platform \<Rightarrow> world \<Rightarrow> (py_error + unit) \<times> world" where
  "render_step pf w =
     (case read_file pf ''webgl-canvas.js'' w of
        (Inl e, w1) \<Rightarrow> (Inl e, w1)
      | (Inr webgl_canvas, w1) \<Rightarrow>
          (case read_file pf ''test.template.html'' w1 of
             (Inl e, w2) \<Rightarrow> (Inl e, w2)
           | (Inr contents, w2) \<Rightarrow>
               write_file pf ''test.html''
                 (str_replace contents ''{}'' webgl_canvas) w2))"

text \<open>
  The body of \<open>if args.test_browser:\<close>. \<open>webbrowser.open\<close> reports a failure
  to launch through its return value, which the script drops.
\<close>

definition browser_step :: "world \<Rightarrow> (py_error + unit) \<times> world" where
  "browser_step w = (Inr (), w\<lparr>events := events w @ [Browser_open ''test.html'']\<rparr>)"

text \<open>
  The script after argument parsing. Nothing catches an exception of the render
  step, so it ends the process before the second \<open>if\<close> is reached.
\<close>

definition go :: "platform \<Rightarrow> args \<Rightarrow> world \<Rightarrow> (py_error + unit) \<times> world" where
  "go pf a w =
     (case (if test_render a then render_step pf w else (Inr (), w)) of
        (Inl e, w1) \<Rightarrow> (Inl e, w1)
      | (Inr u, w1) \<Rightarrow> if test_browser a then browser_step w1 else (Inr (), w1))"

text \<open>
  The exit status of the interpreter: 0 when the script runs to its end, 1 when
  an exception is not caught.
\<close>

definition exit_status :: "py_error + unit \<Rightarrow> nat" where
  "exit_status r = (case r of Inl e \<Rightarrow> 1 | Inr u \<Rightarrow> 0)"

subsection \<open>Vocabulary of the properties\<close>

text \<open>The events a run added to the log, given the worlds before and after it.\<close>

definition emitted :: "world \<Rightarrow> world \<Rightarrow> event list" where
  "emitted w w' = drop (length (events w)) (events w')"

text \<open>
  Whether \<open>open(p).read()\<close> succeeds (the file is there, may be read and
  decodes), and whether \<open>open(p, 'w')\<close> does.
\<close>

definition can_read :: "platform \<Rightarrow> world \<Rightarrow> string \<Rightarrow> bool" where
  "can_read pf w p =
     (case files w p of
        None \<Rightarrow> False
      | Some f \<Rightarrow> readable f \<and> decodable pf (content f))"

definition can_write :: "world \<Rightarrow> string \<Rightarrow> bool" where
  "can_write w p = (case files w p of None \<Rightarrow> dir_writable w | Some f \<Rightarrow> writable f)"

text \<open>The bytes of a file, \<open>None\<close> when it is absent.\<close>

definition text_of :: "world \<Rightarrow> string \<Rightarrow> string option" where
  "text_of w p = map_option content (files w p)"


text \<open>
  \<open>sep.join(segs)\<close>: the segments with \<open>sep\<close> between neighbours. A text with
  \<open>n\<close> occurrences of a placeholder is the join of the \<open>n + 1\<close> stretches
  outside the occurrences.
\<close>

fun join :: "string \<Rightarrow> string list \<Rightarrow> string" where
  "join sep [] = []"
| "join sep [x] = x"
| "join sep (x # y # ys) = x @ sep @ join sep (y # ys)"

subsection \<open>Example platform and worlds\<close>

text \<open>
  A POSIX system whose default encoding is Latin-1: the line separator is one
  line feed, and every byte sequence decodes.
\<close>

definition posix_latin1 :: platform where
  "posix_latin1 = \<lparr>linesep = [LF], decodable = (\<lambda>b. True)\<rparr>"

text \<open>An ordinary file with the given bytes.\<close>

definition text_file_of :: "string \<Rightarrow> text_file" where
  "text_file_of s = \<lparr>readable = True, writable = True, content = s\<rparr>"

text \<open>
  Both inputs present, no output page yet: the fragment is \<open>X\<close>, the template
  has two placeholders.
\<close>

definition page_world :: world where
  "page_world =
     \<lparr>files = [''webgl-canvas.js'' \<mapsto> text_file_of ''X'',
               ''test.template.html'' \<mapsto> text_file_of ''A{}B{}C''],
      dir_writable = True,
      events = []\<rparr>"

text \<open>The same inputs beside an output page left by an earlier run.\<close>

definition stale_page_world :: world where
  "stale_page_world =
     \<lparr>files = [''webgl-canvas.js'' \<mapsto> text_file_of ''X'',
               ''test.template.html'' \<mapsto> text_file_of ''A{}B{}C'',
               ''test.html'' \<mapsto> text_file_of ''old''],
      dir_writable = True,
      events = []\<rparr>"


text \<open>The script fragment is missing; an old output page exists.\<close>

definition no_script_world :: world where
  "no_script_world =
     \<lparr>files = [''test.template.html'' \<mapsto> text_file_of ''A{}B{}C'',
               ''test.html'' \<mapsto> text_file_of ''old''],
      dir_writable = True,
      events = []\<rparr>"



section \<open>Replacing the placeholder\<close>





text \<open>
  Every text is such a join, so the last lemma speaks about every template.
\<close>

lemma split_at_placeholders:
  "\<exists>segs. segs \<noteq> [] \<and> list_all (\<lambda>seg. \<not> sublist ''{}'' seg) segs \<and> s = join ''{}'' segs"
proof (induction s rule: length_induct)
  case (1 s)
  show ?case
  proof (cases s)
    case Nil
    then have "[[]] \<noteq> [] \<and> list_all (\<lambda>seg. \<not> sublist ''{}'' seg) [[]] \<and> s = join ''{}'' [[]]"
      by simp
    then show ?thesis by blast
  next
    case (Cons c cs)
    show ?thesis
    proof (cases "prefix ''{}'' s")
      case True
      then obtain r where r: "s = ''{}'' @ r" by (auto simp: prefix_def)
      then have "length r < length s" by simp
      with 1 obtain segs where s: "segs \<noteq> []" "list_all (\<lambda>seg. \<not> sublist ''{}'' seg) segs"
        "r = join ''{}'' segs" by blast
      then obtain y ys where "segs = y # ys" by (cases segs) auto
      with s r have "[] # segs \<noteq> [] \<and> list_all (\<lambda>seg. \<not> sublist ''{}'' seg) ([] # segs) \<and>
        s = join ''{}'' ([] # segs)" by simp
      then show ?thesis by blast
    next
      case False
      from Cons have "length cs < length s" by simp
      with 1 obtain segs where s: "segs \<noteq> []" "list_all (\<lambda>seg. \<not> sublist ''{}'' seg) segs"
        "cs = join ''{}'' segs" by blast
      then obtain y ys where ys: "segs = y # ys" by (cases segs) auto
      have "\<not> sublist ''{}'' (c # y)"
      proof
        assume "sublist ''{}'' (c # y)"
        with s ys have "prefix ''{}'' (c # y)" by (simp add: sublist_Cons_right)
        with s ys have "prefix ''{}'' (c # cs)" by (cases ys) (auto simp: prefix_def)
        with False Cons show False by simp
      qed
      with s ys Cons have "(c # y) # ys \<noteq> [] \<and> list_all (\<lambda>seg. \<not> sublist ''{}'' seg) ((c # y) # ys) \<and>
        s = join ''{}'' ((c # y) # ys)" by (cases ys) auto
      then show ?thesis by blast
    qed
  qed
qed

section \<open>Line endings\<close>












section \<open>The steps, case by case\<close>

subsection \<open>Reading and writing one file\<close>

lemma read_file_ok:
  "files w p = Some f \<Longrightarrow> readable f \<Longrightarrow> decodable pf (content f) \<Longrightarrow>
   read_file pf p w
   = (Inr (universal_newlines (content f)), w\<lparr>events := events w @ [Open_read p]\<rparr>)"
  by (simp add: read_file_def)

lemma read_file_fails:
  "\<not> can_read pf w p \<Longrightarrow>
   \<exists>e. read_file pf p w = (Inl e, w\<lparr>events := events w @ [Open_read p]\<rparr>)"
  by (auto simp: read_file_def can_read_def Let_def split: option.splits)

lemma write_file_ok:
  "can_write w p \<Longrightarrow>
   fst (write_file pf p s w) = Inr () \<and>
   text_of (snd (write_file pf p s w)) p = Some (write_newlines pf s) \<and>
   can_write (snd (write_file pf p s w)) p \<and>
   events (snd (write_file pf p s w)) = events w @ [Open_write p] \<and>
   dir_writable (snd (write_file pf p s w)) = dir_writable w \<and>
   (\<forall>q. q \<noteq> p \<longrightarrow> files (snd (write_file pf p s w)) q = files w q)"
  by (auto simp: write_file_def can_write_def text_of_def split: option.splits)

lemma write_file_fails:
  "\<not> can_write w p \<Longrightarrow>
   write_file pf p s w
   = (Inl PermissionError, w\<lparr>events := events w @ [Open_write p]\<rparr>)"
  by (auto simp: write_file_def can_write_def split: option.splits)

lemma can_read_events [simp]: "can_read pf (w\<lparr>events := es\<rparr>) p = can_read pf w p"
  by (simp add: can_read_def)

lemma can_write_events [simp]: "can_write (w\<lparr>events := es\<rparr>) p = can_write w p"
  by (simp add: can_write_def split: option.splits)

lemma can_read_Some:
  "can_read pf w p \<Longrightarrow>
   \<exists>f. files w p = Some f \<and> readable f \<and> decodable pf (content f)"
  by (auto simp: can_read_def split: option.splits)

subsection \<open>The render step\<close>

text \<open>
  Both inputs can be read and the output can be opened: the step succeeds and
  writes the substitution, made on the texts as read.
\<close>

lemma render_step_ok:
  assumes js: "files w ''webgl-canvas.js'' = Some fj" "readable fj"
      "decodable pf (content fj)"
    and tm: "files w ''test.template.html'' = Some ft" "readable ft"
      "decodable pf (content ft)"
    and wr: "can_write w ''test.html''"
  shows "fst (render_step pf w) = Inr ()"
    and "text_of (snd (render_step pf w)) ''test.html''
         = Some (write_newlines pf
             (str_replace (universal_newlines (content ft)) ''{}''
                (universal_newlines (content fj))))"
    and "can_write (snd (render_step pf w)) ''test.html''"
    and "events (snd (render_step pf w))
         = events w @ [Open_read ''webgl-canvas.js'', Open_read ''test.template.html'',
            Open_write ''test.html'']"
    and "files (snd (render_step pf w)) ''webgl-canvas.js'' = files w ''webgl-canvas.js''"
    and "files (snd (render_step pf w)) ''test.template.html''
         = files w ''test.template.html''"
    and "dir_writable (snd (render_step pf w)) = dir_writable w"
proof -
  let ?w1 = "w\<lparr>events := events w @ [Open_read ''webgl-canvas.js'']\<rparr>"
  let ?w2 = "?w1\<lparr>events := events ?w1 @ [Open_read ''test.template.html'']\<rparr>"
  let ?out = "str_replace (universal_newlines (content ft)) ''{}''
                (universal_newlines (content fj))"
  have r: "render_step pf w = write_file pf ''test.html'' ?out ?w2"
    using js tm by (simp add: render_step_def read_file_ok)
  have cw: "can_write ?w2 ''test.html''"
    using wr by simp
  note wf = write_file_ok [OF cw, of pf ?out]
  show "fst (render_step pf w) = Inr ()" using wf r by simp
  show "text_of (snd (render_step pf w)) ''test.html'' = Some (write_newlines pf ?out)"
    using wf r by simp
  show "can_write (snd (render_step pf w)) ''test.html''" using wf r by simp
  show "events (snd (render_step pf w))
         = events w @ [Open_read ''webgl-canvas.js'', Open_read ''test.template.html'',
            Open_write ''test.html'']" using wf r by simp
  show "files (snd (render_step pf w)) ''webgl-canvas.js'' = files w ''webgl-canvas.js''"
    using wf r by simp
  show "files (snd (render_step pf w)) ''test.template.html''
        = files w ''test.template.html''"
    using wf r by simp
  show "dir_writable (snd (render_step pf w)) = dir_writable w"
    using wf r by simp
qed

text \<open>An input cannot be read: the step ends there, before \<open>open('test.html', 'w')\<close>.\<close>

lemma render_step_input_fails:
  assumes "\<not> can_read pf w ''webgl-canvas.js'' \<or> \<not> can_read pf w ''test.template.html''"
  shows "fst (render_step pf w) \<noteq> Inr ()"
    and "files (snd (render_step pf w)) = files w"
    and "events (snd (render_step pf w)) = events w @ [Open_read ''webgl-canvas.js''] \<or>
         events (snd (render_step pf w))
         = events w @ [Open_read ''webgl-canvas.js'', Open_read ''test.template.html'']"
proof -
  let ?w1 = "w\<lparr>events := events w @ [Open_read ''webgl-canvas.js'']\<rparr>"
  let ?w2 = "?w1\<lparr>events := events ?w1 @ [Open_read ''test.template.html'']\<rparr>"
  have "\<exists>e. render_step pf w = (Inl e, ?w1) \<or> render_step pf w = (Inl e, ?w2)"
  proof (cases "can_read pf w ''webgl-canvas.js''")
    case False
    then obtain e where "read_file pf ''webgl-canvas.js'' w = (Inl e, ?w1)"
      using read_file_fails by blast
    then have "render_step pf w = (Inl e, ?w1)" by (simp add: render_step_def)
    then show ?thesis by blast
  next
    case True
    then obtain fj where fj: "files w ''webgl-canvas.js'' = Some fj" "readable fj"
        "decodable pf (content fj)"
      using can_read_Some by blast
    from True assms have "\<not> can_read pf ?w1 ''test.template.html''" by simp
    then obtain e where "read_file pf ''test.template.html'' ?w1 = (Inl e, ?w2)"
      using read_file_fails by blast
    with fj have "render_step pf w = (Inl e, ?w2)"
      by (simp add: render_step_def read_file_ok)
    then show ?thesis by blast
  qed
  then obtain e where e: "render_step pf w = (Inl e, ?w1) \<or> render_step pf w = (Inl e, ?w2)"
    by blast
  from e show "fst (render_step pf w) \<noteq> Inr ()" by auto
  from e show "files (snd (render_step pf w)) = files w" by auto
  from e show "events (snd (render_step pf w)) = events w @ [Open_read ''webgl-canvas.js''] \<or>
         events (snd (render_step pf w))
         = events w @ [Open_read ''webgl-canvas.js'', Open_read ''test.template.html'']"
    by auto
qed

text \<open>Both inputs are read, the output cannot be opened.\<close>

lemma render_step_output_fails:
  assumes rd: "can_read pf w ''webgl-canvas.js''" "can_read pf w ''test.template.html''"
    and wr: "\<not> can_write w ''test.html''"
  shows "fst (render_step pf w) \<noteq> Inr ()"
    and "files (snd (render_step pf w)) = files w"
    and "events (snd (render_step pf w))
         = events w @ [Open_read ''webgl-canvas.js'', Open_read ''test.template.html'',
            Open_write ''test.html'']"
proof -
  let ?w1 = "w\<lparr>events := events w @ [Open_read ''webgl-canvas.js'']\<rparr>"
  let ?w2 = "?w1\<lparr>events := events ?w1 @ [Open_read ''test.template.html'']\<rparr>"
  let ?w3 = "?w2\<lparr>events := events ?w2 @ [Open_write ''test.html'']\<rparr>"
  from rd obtain fj ft where f: "files w ''webgl-canvas.js'' = Some fj" "readable fj"
      "decodable pf (content fj)"
      "files w ''test.template.html'' = Some ft" "readable ft" "decodable pf (content ft)"
    using can_read_Some by blast
  from wr have "\<not> can_write ?w2 ''test.html''" by simp
  then have "write_file pf ''test.html''
               (str_replace (universal_newlines (content ft)) ''{}''
                  (universal_newlines (content fj))) ?w2
             = (Inl PermissionError, ?w3)"
    by (rule write_file_fails)
  with f have r: "render_step pf w = (Inl PermissionError, ?w3)"
    by (simp add: render_step_def read_file_ok)
  from r show "fst (render_step pf w) \<noteq> Inr ()" by simp
  from r show "files (snd (render_step pf w)) = files w" by simp
  from r show "events (snd (render_step pf w))
         = events w @ [Open_read ''webgl-canvas.js'', Open_read ''test.template.html'',
            Open_write ''test.html'']"
    by simp
qed

lemma emitted_append: "events w' = events w @ es \<Longrightarrow> emitted w w' = es"
  by (simp add: emitted_def)

lemma render_step_ok_iff:
  "(fst (render_step pf w) = Inr ()) =
   (can_read pf w ''webgl-canvas.js'' \<and> can_read pf w ''test.template.html'' \<and>
    can_write w ''test.html'')"
proof
  assume ok: "fst (render_step pf w) = Inr ()"
  show "can_read pf w ''webgl-canvas.js'' \<and> can_read pf w ''test.template.html'' \<and>
    can_write w ''test.html''"
    using ok render_step_input_fails(1) [of pf w] render_step_output_fails(1) [of pf w]
    by blast
next
  assume c: "can_read pf w ''webgl-canvas.js'' \<and> can_read pf w ''test.template.html'' \<and>
    can_write w ''test.html''"
  then obtain fj ft where "files w ''webgl-canvas.js'' = Some fj" "readable fj"
      "decodable pf (content fj)"
      "files w ''test.template.html'' = Some ft" "readable ft" "decodable pf (content ft)"
    using can_read_Some by blast
  with c show "fst (render_step pf w) = Inr ()"
    by (simp add: render_step_ok(1))
qed

lemma render_step_events:
  "\<exists>es. events (snd (render_step pf w)) = events w @ es \<and>
        prefix es [Open_read ''webgl-canvas.js'', Open_read ''test.template.html'',
                   Open_write ''test.html''] \<and>
        (fst (render_step pf w) = Inr () \<longrightarrow>
           es = [Open_read ''webgl-canvas.js'', Open_read ''test.template.html'',
                 Open_write ''test.html''])"
proof (cases "can_read pf w ''webgl-canvas.js'' \<and> can_read pf w ''test.template.html''")
  case False
  then have f: "\<not> can_read pf w ''webgl-canvas.js'' \<or>
      \<not> can_read pf w ''test.template.html''"
    by blast
  from render_step_input_fails(1,3) [OF f] show ?thesis by auto
next
  case True
  show ?thesis
  proof (cases "can_write w ''test.html''")
    case False
    with True render_step_output_fails(3) [of pf w] show ?thesis by simp
  next
    case cw: True
    from True obtain fj ft where "files w ''webgl-canvas.js'' = Some fj" "readable fj"
      "decodable pf (content fj)"
      "files w ''test.template.html'' = Some ft" "readable ft" "decodable pf (content ft)"
      using can_read_Some by blast
    with cw render_step_ok(4) [of w fj pf ft] show ?thesis by simp
  qed
qed

lemma render_step_ok_text:
  assumes "fst (render_step pf w) = Inr ()"
  shows "\<exists>f t. text_of w ''webgl-canvas.js'' = Some f \<and>
               text_of w ''test.template.html'' = Some t \<and>
               text_of (snd (render_step pf w)) ''test.html''
               = Some (write_newlines pf
                   (str_replace (universal_newlines t) ''{}'' (universal_newlines f)))"
proof -
  from assms have c: "can_read pf w ''webgl-canvas.js''"
      "can_read pf w ''test.template.html''" "can_write w ''test.html''"
    by (simp_all add: render_step_ok_iff)
  then obtain fj ft where f: "files w ''webgl-canvas.js'' = Some fj" "readable fj"
      "decodable pf (content fj)"
      "files w ''test.template.html'' = Some ft" "readable ft" "decodable pf (content ft)"
    using can_read_Some by blast
  from render_step_ok(2) [OF f c(3)] f(1,4) show ?thesis
    by (simp add: text_of_def)
qed

subsection \<open>The script with \<open>--test-render\<close>\<close>

lemma go_render_ok:
  "test_render a \<Longrightarrow> fst (render_step pf w) = Inr () \<Longrightarrow>
   fst (go pf a w) = Inr () \<and> files (snd (go pf a w)) = files (snd (render_step pf w)) \<and>
   dir_writable (snd (go pf a w)) = dir_writable (snd (render_step pf w)) \<and>
   events (snd (go pf a w)) = events (snd (render_step pf w))
      @ (if test_browser a then [Browser_open ''test.html''] else [])"
  by (cases "render_step pf w") (auto simp: go_def browser_step_def)

lemma go_render_fails:
  "test_render a \<Longrightarrow> fst (render_step pf w) \<noteq> Inr () \<Longrightarrow>
   go pf a w = render_step pf w"
  by (cases "render_step pf w") (auto simp: go_def split: sum.splits)

lemma go_ok_iff:
  assumes "test_render a"
  shows "(fst (go pf a w) = Inr ()) = (fst (render_step pf w) = Inr ())"
proof (cases "fst (render_step pf w) = Inr ()")
  case True
  with go_render_ok [OF assms True] show ?thesis by simp
next
  case False
  with go_render_fails [OF assms False] show ?thesis by simp
qed

lemma go_render_text:
  "test_render a \<Longrightarrow> fst (render_step pf w) = Inr () \<Longrightarrow>
   text_of (snd (go pf a w)) p = text_of (snd (render_step pf w)) p"
  using go_render_ok [of a pf w] by (simp add: text_of_def)


section \<open>Properties\<close>

subsection \<open>What the render step writes\<close>







subsection \<open>A missing input\<close>

text \<open>
  C2: if \<open>--test-render\<close> is set and \<open>webgl-canvas.js\<close> or
  \<open>test.template.html\<close> is absent or unreadable, the process exits with a
  non-zero status and \<open>test.html\<close> is neither created nor modified (no file
  is): \<open>open('test.html', 'w')\<close> is not called, the output being opened only
  after both reads have succeeded.
\<close>

theorem render_missing_input_writes_nothing:
  assumes "test_render a"
    and "\<not> can_read pf w ''webgl-canvas.js'' \<or> \<not> can_read pf w ''test.template.html''"
  shows "exit_status (fst (go pf a w)) \<noteq> 0 \<and>
         files (snd (go pf a w)) = files w \<and>
         Open_write ''test.html'' \<notin> set (emitted w (snd (go pf a w)))"
proof -
  note f = render_step_input_fails [OF assms(2)]
  from go_render_fails [OF assms(1) f(1)] have g: "go pf a w = render_step pf w" .
  from f(1) have "exit_status (fst (render_step pf w)) \<noteq> 0"
    by (cases "fst (render_step pf w)") (simp_all add: exit_status_def)
  moreover from f(3)
  have "Open_write ''test.html'' \<notin> set (emitted w (snd (render_step pf w)))"
    by (auto simp: emitted_def)
  ultimately show ?thesis using f(2) g by simp
qed

text \<open>An instance: the fragment is missing, the old page stays.\<close>

theorem render_missing_input_writes_nothing_witness:
  "test_render \<lparr>test_render = True, test_browser = True\<rparr> \<and>
   \<not> can_read posix_latin1 no_script_world ''webgl-canvas.js'' \<and>
   exit_status (fst (go posix_latin1 \<lparr>test_render = True, test_browser = True\<rparr>
                       no_script_world)) = 1 \<and>
   text_of (snd (go posix_latin1 \<lparr>test_render = True, test_browser = True\<rparr>
                   no_script_world)) ''test.html''
     = Some ''old'' \<and>
   files (snd (go posix_latin1 \<lparr>test_render = True, test_browser = True\<rparr> no_script_world))
     = files no_script_world"
proof -
  let ?a = "\<lparr>test_render = True, test_browser = True\<rparr>"
  have h1: "test_render ?a" by simp
  have h2: "\<not> can_read posix_latin1 no_script_world ''webgl-canvas.js''"
    by (simp add: no_script_world_def can_read_def)
  then have h2': "\<not> can_read posix_latin1 no_script_world ''webgl-canvas.js'' \<or>
      \<not> can_read posix_latin1 no_script_world ''test.template.html''" by (rule disjI1)
  note t = render_missing_input_writes_nothing [OF h1 h2']
  from t have "exit_status (fst (go posix_latin1 ?a no_script_world)) = 1"
    by (cases "fst (go posix_latin1 ?a no_script_world)")
       (simp_all add: exit_status_def)
  moreover from t have
    "text_of (snd (go posix_latin1 ?a no_script_world)) ''test.html'' = Some ''old''"
    by (simp add: text_of_def no_script_world_def text_file_of_def)
  ultimately show ?thesis using h1 h2 t by simp
qed

subsection \<open>The browser step after the render step\<close>

text \<open>
  C3 states that with \<open>--test-browser\<close> set the browser-open step is performed
  whether or not the render step succeeded. It is not: with both switches set
  and \<open>webgl-canvas.js\<close> missing, the run ends with \<open>FileNotFoundError\<close> and
  \<open>webbrowser.open\<close> is never called.
\<close>

theorem browser_skipped_after_failed_render:
  "test_browser \<lparr>test_render = True, test_browser = True\<rparr> \<and>
   fst (go posix_latin1 \<lparr>test_render = True, test_browser = True\<rparr> no_script_world)
     = Inl FileNotFoundError \<and>
   Browser_open ''test.html''
     \<notin> set (emitted no_script_world
              (snd (go posix_latin1 \<lparr>test_render = True, test_browser = True\<rparr>
                      no_script_world)))"
  by (simp add: go_def render_step_def read_file_def no_script_world_def emitted_def)

text \<open>
  C3, amended: with \<open>--test-browser\<close> set, the browser-open step on
  \<open>test.html\<close> is performed exactly when the render step was not requested or
  succeeded in the same invocation. When both switches are set and the render
  step fails, the process ends with the render step's error, its exit status is
  not 0, and the browser-open step does not run; in every other case the exit
  status is 0.
\<close>

theorem browser_opens_iff_render_ok:
  assumes "test_browser a"
  shows "(Browser_open ''test.html'' \<in> set (emitted w (snd (go pf a w))))
           = (\<not> test_render a \<or> fst (render_step pf w) = Inr ())
       \<and> fst (go pf a w) = (if test_render a then fst (render_step pf w) else Inr ())
       \<and> (exit_status (fst (go pf a w)) = 0)
           = (\<not> test_render a \<or> fst (render_step pf w) = Inr ())"
proof (cases "test_render a")
  case False
  with assms have "go pf a w = browser_step w" by (simp add: go_def)
  with False show ?thesis by (simp add: browser_step_def emitted_def exit_status_def)
next
  case True
  obtain es where es: "events (snd (render_step pf w)) = events w @ es"
      "prefix es [Open_read ''webgl-canvas.js'', Open_read ''test.template.html'',
                  Open_write ''test.html'']"
    using render_step_events [of pf w] by blast
  from es(2) have nb: "Browser_open ''test.html'' \<notin> set es"
    using set_mono_prefix by fastforce
  show ?thesis
  proof (cases "fst (render_step pf w) = Inr ()")
    case ok: True
    note g = go_render_ok [OF True ok]
    from g assms es(1)
    have "events (snd (go pf a w)) = events w @ (es @ [Browser_open ''test.html''])"
      by simp
    then have "emitted w (snd (go pf a w)) = es @ [Browser_open ''test.html'']"
      by (rule emitted_append)
    with ok True g show ?thesis by (simp add: exit_status_def)
  next
    case fail: False
    from go_render_fails [OF True fail] have g: "go pf a w = render_step pf w" .
    with es(1) have e: "emitted w (snd (go pf a w)) = es" by (simp add: emitted_append)
    from fail have "exit_status (fst (render_step pf w)) \<noteq> 0"
      by (cases "fst (render_step pf w)") (simp_all add: exit_status_def)
    with fail True nb g e show ?thesis by simp
  qed
qed

text \<open>Two instances: a render that succeeds, and one that fails.\<close>

theorem browser_opens_iff_render_ok_witness:
  "test_browser \<lparr>test_render = True, test_browser = True\<rparr> \<and>
   fst (render_step posix_latin1 page_world) = Inr () \<and>
   Browser_open ''test.html''
     \<in> set (emitted page_world
              (snd (go posix_latin1 \<lparr>test_render = True, test_browser = True\<rparr>
                      page_world))) \<and>
   exit_status (fst (go posix_latin1 \<lparr>test_render = True, test_browser = True\<rparr>
                       page_world)) = 0 \<and>
   fst (render_step posix_latin1 no_script_world) = Inl FileNotFoundError \<and>
   Browser_open ''test.html''
     \<notin> set (emitted no_script_world
              (snd (go posix_latin1 \<lparr>test_render = True, test_browser = True\<rparr>
                      no_script_world))) \<and>
   fst (go posix_latin1 \<lparr>test_render = True, test_browser = True\<rparr> no_script_world)
     = Inl FileNotFoundError \<and>
   exit_status (fst (go posix_latin1 \<lparr>test_render = True, test_browser = True\<rparr>
                       no_script_world)) = 1"
proof -
  let ?a = "\<lparr>test_render = True, test_browser = True\<rparr>"
  have h: "test_browser ?a" by simp
  have ok: "fst (render_step posix_latin1 page_world) = Inr ()"
    by (simp add: render_step_def read_file_def write_file_def page_world_def
                  text_file_of_def posix_latin1_def)
  have bad: "fst (render_step posix_latin1 no_script_world) = Inl FileNotFoundError"
    by (simp add: render_step_def read_file_def no_script_world_def)
  note t1 = browser_opens_iff_render_ok [OF h, of page_world posix_latin1]
  note t2 = browser_opens_iff_render_ok [OF h, of no_script_world posix_latin1]
  from t1 ok have a1: "Browser_open ''test.html''
      \<in> set (emitted page_world (snd (go posix_latin1 ?a page_world)))" by blast
  from t1 ok have a2: "exit_status (fst (go posix_latin1 ?a page_world)) = 0" by blast
  from t2 bad have b1: "Browser_open ''test.html''
      \<notin> set (emitted no_script_world (snd (go posix_latin1 ?a no_script_world)))"
    by simp
  from t2 bad have b2: "fst (go posix_latin1 ?a no_script_world) = Inl FileNotFoundError"
    by simp
  then have b3: "exit_status (fst (go posix_latin1 ?a no_script_world)) = 1"
    by (simp add: exit_status_def)
  from h ok bad a1 a2 b1 b2 b3 show ?thesis by simp
qed

text \<open>
  C4: in every invocation with both switches set, the render step is complete
  before the browser-open step begins, and the two never interleave. The events
  of the run are an initial part of the one sequence read, read, write, browse;
  \<open>webbrowser.open\<close> is called exactly in the runs that succeed, as the last
  event, after the write of \<open>test.html\<close>; and the files it finds are those the
  render step left.
\<close>

theorem render_then_browser:
  "prefix (emitted w (snd (go pf \<lparr>test_render = True, test_browser = True\<rparr> w)))
     [Open_read ''webgl-canvas.js'', Open_read ''test.template.html'',
      Open_write ''test.html'', Browser_open ''test.html'']
   \<and> (fst (go pf \<lparr>test_render = True, test_browser = True\<rparr> w) = Inr ())
      = (emitted w (snd (go pf \<lparr>test_render = True, test_browser = True\<rparr> w))
         = [Open_read ''webgl-canvas.js'', Open_read ''test.template.html'',
            Open_write ''test.html'', Browser_open ''test.html''])
   \<and> (Browser_open ''test.html''
        \<in> set (emitted w (snd (go pf \<lparr>test_render = True, test_browser = True\<rparr> w))))
      = (fst (go pf \<lparr>test_render = True, test_browser = True\<rparr> w) = Inr ())
   \<and> files (snd (go pf \<lparr>test_render = True, test_browser = True\<rparr> w))
      = files (snd (render_step pf w))"
proof -
  let ?a = "\<lparr>test_render = True, test_browser = True\<rparr>"
  have tr: "test_render ?a" by simp
  obtain es where es: "events (snd (render_step pf w)) = events w @ es"
      "prefix es [Open_read ''webgl-canvas.js'', Open_read ''test.template.html'',
                  Open_write ''test.html'']"
      "fst (render_step pf w) = Inr () \<longrightarrow>
         es = [Open_read ''webgl-canvas.js'', Open_read ''test.template.html'',
               Open_write ''test.html'']"
    using render_step_events [of pf w] by blast
  show ?thesis
  proof (cases "fst (render_step pf w) = Inr ()")
    case True
    note g = go_render_ok [OF tr True]
    from g es(1) es(3) True
    have "events (snd (go pf ?a w)) = events w @ [Open_read ''webgl-canvas.js'',
        Open_read ''test.template.html'', Open_write ''test.html'',
        Browser_open ''test.html'']" by simp
    then have "emitted w (snd (go pf ?a w)) = [Open_read ''webgl-canvas.js'',
        Open_read ''test.template.html'', Open_write ''test.html'',
        Browser_open ''test.html'']" by (rule emitted_append)
    with g show ?thesis by simp
  next
    case False
    from go_render_fails [OF tr False] have g: "go pf ?a w = render_step pf w" .
    with es(1) have e: "emitted w (snd (go pf ?a w)) = es" by (simp add: emitted_append)
    from es(2) have nb: "Browser_open ''test.html'' \<notin> set es"
      using set_mono_prefix by fastforce
    then have ne: "es \<noteq> [Open_read ''webgl-canvas.js'', Open_read ''test.template.html'',
        Open_write ''test.html'', Browser_open ''test.html'']" by auto
    from es(2) have "prefix es ([Open_read ''webgl-canvas.js'',
        Open_read ''test.template.html'', Open_write ''test.html'']
        @ [Browser_open ''test.html''])" by (rule prefix_prefix)
    then have p: "prefix es [Open_read ''webgl-canvas.js'',
        Open_read ''test.template.html'', Open_write ''test.html'',
        Browser_open ''test.html'']" by simp
    from False g e nb ne p show ?thesis by simp
  qed
qed

subsection \<open>Neither switch, or only the browser switch\<close>

text \<open>
  C5: an invocation with neither \<open>--test-render\<close> nor \<open>--test-browser\<close>
  opens no file for reading or writing and launches no browser: the world,
  files and event log alike, is returned as it was, and the exit status is 0.
\<close>

theorem go_no_flags_noop:
  "go pf \<lparr>test_render = False, test_browser = False\<rparr> w = (Inr (), w)
   \<and> exit_status (fst (go pf \<lparr>test_render = False, test_browser = False\<rparr> w)) = 0"
  by (simp add: go_def exit_status_def)

text \<open>
  C8: an invocation with only \<open>--test-browser\<close> leaves every file, \<open>test.html\<close>
  among them, as it was: the only thing it does is one call of
  \<open>webbrowser.open('test.html')\<close>; no file is opened.
\<close>

theorem go_browser_only_frame:
  "files (snd (go pf \<lparr>test_render = False, test_browser = True\<rparr> w)) = files w
   \<and> text_of (snd (go pf \<lparr>test_render = False, test_browser = True\<rparr> w)) ''test.html''
       = text_of w ''test.html''
   \<and> emitted w (snd (go pf \<lparr>test_render = False, test_browser = True\<rparr> w))
       = [Browser_open ''test.html'']
   \<and> fst (go pf \<lparr>test_render = False, test_browser = True\<rparr> w) = Inr ()"
  by (simp add: go_def browser_step_def emitted_def text_of_def)

subsection \<open>Rendering again\<close>

text \<open>
  C7: running the render step twice against unchanged \<open>webgl-canvas.js\<close> and
  \<open>test.template.html\<close> gives the same \<open>test.html\<close> bytes both times,
  whatever \<open>test.html\<close> held before each run: after a first successful run,
  \<open>test.html\<close> may be replaced by any writable file \<open>t\<close>, or removed where
  the directory allows a file to be created; the second run succeeds and leaves
  the bytes the first one left.
\<close>

theorem rerender_same_output:
  assumes "test_render a" and "test_render b"
    and "fst (go pf a w) = Inr ()"
    and "case t of None \<Rightarrow> dir_writable w | Some tf \<Rightarrow> writable tf"
  shows "fst (go pf b ((snd (go pf a w))
                 \<lparr>files := (files (snd (go pf a w)))(''test.html'' := t)\<rparr>))
           = Inr ()
       \<and> text_of (snd (go pf b ((snd (go pf a w))
                     \<lparr>files := (files (snd (go pf a w)))(''test.html'' := t)\<rparr>)))
             ''test.html''
           = text_of (snd (go pf a w)) ''test.html''"
proof -
  let ?w1 = "snd (go pf a w)"
  let ?w1' = "?w1\<lparr>files := (files ?w1)(''test.html'' := t)\<rparr>"
  let ?out = "write_newlines pf
                (str_replace (universal_newlines (content ft)) ''{}''
                   (universal_newlines (content fj)))"
  from assms(1,3) have ok: "fst (render_step pf w) = Inr ()" by (simp add: go_ok_iff)
  then have c: "can_read pf w ''webgl-canvas.js''" "can_read pf w ''test.template.html''"
      "can_write w ''test.html''"
    by (simp_all add: render_step_ok_iff)
  then obtain fj ft where f: "files w ''webgl-canvas.js'' = Some fj" "readable fj"
      "decodable pf (content fj)"
      "files w ''test.template.html'' = Some ft" "readable ft" "decodable pf (content ft)"
    using can_read_Some by blast
  note r = render_step_ok [OF f c(3)]
  note g = go_render_ok [OF assms(1) ok]
  from g r(5) f(1) have j: "files ?w1' ''webgl-canvas.js'' = Some fj" by simp
  from g r(6) f(4) have m: "files ?w1' ''test.template.html'' = Some ft" by simp
  from g r(7) have "dir_writable ?w1' = dir_writable w" by simp
  with assms(4) have cw: "can_write ?w1' ''test.html''"
    by (simp add: can_write_def split: option.splits)
  note r' = render_step_ok [OF j f(2,3) m f(5,6) cw]
  note g' = go_render_ok [OF assms(2) r'(1)]
  from g r(2) have "text_of ?w1 ''test.html''
      = Some (write_newlines pf
                (str_replace (universal_newlines (content ft)) ''{}''
                   (universal_newlines (content fj))))" by (simp add: text_of_def)
  moreover from g' r'(2) have "text_of (snd (go pf b ?w1')) ''test.html''
      = Some (write_newlines pf
                (str_replace (universal_newlines (content ft)) ''{}''
                   (universal_newlines (content fj))))" by (simp add: text_of_def)
  ultimately show ?thesis using g' by simp
qed

text \<open>
  An instance: between the two runs the page is overwritten with \<open>junk\<close>.
\<close>

theorem rerender_same_output_witness:
  "test_render \<lparr>test_render = True, test_browser = False\<rparr> \<and>
   test_render \<lparr>test_render = True, test_browser = True\<rparr> \<and>
   fst (go posix_latin1 \<lparr>test_render = True, test_browser = False\<rparr> page_world) = Inr () \<and>
   writable (text_file_of ''junk'') \<and>
   fst (go posix_latin1 \<lparr>test_render = True, test_browser = True\<rparr>
         ((snd (go posix_latin1 \<lparr>test_render = True, test_browser = False\<rparr> page_world))
            \<lparr>files := (files (snd (go posix_latin1
                                    \<lparr>test_render = True, test_browser = False\<rparr>
                                    page_world)))
                        (''test.html'' := Some (text_file_of ''junk''))\<rparr>)) = Inr () \<and>
   text_of (snd (go posix_latin1 \<lparr>test_render = True, test_browser = True\<rparr>
         ((snd (go posix_latin1 \<lparr>test_render = True, test_browser = False\<rparr> page_world))
            \<lparr>files := (files (snd (go posix_latin1
                                    \<lparr>test_render = True, test_browser = False\<rparr>
                                    page_world)))
                        (''test.html'' := Some (text_file_of ''junk''))\<rparr>))) ''test.html''
     = Some ''AXBXC''"
proof -
  let ?a = "\<lparr>test_render = True, test_browser = False\<rparr>"
  let ?b = "\<lparr>test_render = True, test_browser = True\<rparr>"
  have h1: "test_render ?a" by simp
  have h2: "test_render ?b" by simp
  have h3: "fst (go posix_latin1 ?a page_world) = Inr ()"
    by (simp add: go_def render_step_def read_file_def write_file_def page_world_def
                  text_file_of_def posix_latin1_def)
  have h4: "case Some (text_file_of ''junk'') of
              None \<Rightarrow> dir_writable page_world | Some tf \<Rightarrow> writable tf"
    by (simp add: text_file_of_def)
  have first: "text_of (snd (go posix_latin1 ?a page_world)) ''test.html'' = Some ''AXBXC''"
    by (simp add: go_def render_step_def read_file_def write_file_def page_world_def
                  text_file_of_def text_of_def posix_latin1_def write_newlines_def)
  note t = rerender_same_output [OF h1 h2 h3 h4]
  from t first h1 h2 h3 h4 show ?thesis by simp
qed

text \<open>
  C9: the written bytes are a function of the two inputs. Two successful
  invocations on one platform with the same switches, \<open>--test-render\<close> among
  them, in two worlds whose \<open>webgl-canvas.js\<close> and \<open>test.template.html\<close> have
  the same bytes leave the same bytes in \<open>test.html\<close>, whatever \<open>test.html\<close>
  was before, present or not.
\<close>

theorem render_output_determined_by_inputs:
  assumes "test_render a"
    and "text_of w ''webgl-canvas.js'' = text_of w' ''webgl-canvas.js''"
    and "text_of w ''test.template.html'' = text_of w' ''test.template.html''"
    and "fst (go pf a w) = Inr ()" and "fst (go pf a w') = Inr ()"
  shows "text_of (snd (go pf a w)) ''test.html'' = text_of (snd (go pf a w')) ''test.html''"
proof -
  from assms(1,4) have ok: "fst (render_step pf w) = Inr ()" by (simp add: go_ok_iff)
  from assms(1,5) have ok': "fst (render_step pf w') = Inr ()" by (simp add: go_ok_iff)
  from render_step_ok_text [OF ok] obtain f t where
    o: "text_of w ''webgl-canvas.js'' = Some f" "text_of w ''test.template.html'' = Some t"
       "text_of (snd (render_step pf w)) ''test.html''
        = Some (write_newlines pf
            (str_replace (universal_newlines t) ''{}'' (universal_newlines f)))"
    by blast
  from render_step_ok_text [OF ok'] obtain f' t' where
    o': "text_of w' ''webgl-canvas.js'' = Some f'"
       "text_of w' ''test.template.html'' = Some t'"
       "text_of (snd (render_step pf w')) ''test.html''
        = Some (write_newlines pf
            (str_replace (universal_newlines t') ''{}'' (universal_newlines f')))"
    by blast
  from o(1,2) o'(1,2) assms(2,3) have "f = f'" "t = t'" by simp_all
  with o(3) o'(3) go_render_text [OF assms(1) ok] go_render_text [OF assms(1) ok']
  show ?thesis by simp
qed

text \<open>
  An instance: one world has no output page, the other an old one.
\<close>

theorem render_output_determined_by_inputs_witness:
  "test_render \<lparr>test_render = True, test_browser = False\<rparr> \<and>
   text_of page_world ''webgl-canvas.js'' = text_of stale_page_world ''webgl-canvas.js'' \<and>
   text_of page_world ''test.template.html''
     = text_of stale_page_world ''test.template.html'' \<and>
   text_of page_world ''test.html'' = None \<and>
   text_of stale_page_world ''test.html'' = Some ''old'' \<and>
   fst (go posix_latin1 \<lparr>test_render = True, test_browser = False\<rparr> page_world) = Inr () \<and>
   fst (go posix_latin1 \<lparr>test_render = True, test_browser = False\<rparr> stale_page_world)
     = Inr () \<and>
   text_of (snd (go posix_latin1 \<lparr>test_render = True, test_browser = False\<rparr> page_world))
       ''test.html''
     = text_of (snd (go posix_latin1 \<lparr>test_render = True, test_browser = False\<rparr>
                       stale_page_world)) ''test.html''"
proof -
  let ?a = "\<lparr>test_render = True, test_browser = False\<rparr>"
  have h1: "test_render ?a" by simp
  have h2: "text_of page_world ''webgl-canvas.js''
            = text_of stale_page_world ''webgl-canvas.js''"
    by (simp add: text_of_def page_world_def stale_page_world_def)
  have h3: "text_of page_world ''test.template.html''
            = text_of stale_page_world ''test.template.html''"
    by (simp add: text_of_def page_world_def stale_page_world_def)
  have h4: "fst (go posix_latin1 ?a page_world) = Inr ()"
    by (simp add: go_def render_step_def read_file_def write_file_def page_world_def
                  text_file_of_def posix_latin1_def)
  have h5: "fst (go posix_latin1 ?a stale_page_world) = Inr ()"
    by (simp add: go_def render_step_def read_file_def write_file_def stale_page_world_def
                  text_file_of_def posix_latin1_def)
  have b1: "text_of page_world ''test.html'' = None"
    by (simp add: text_of_def page_world_def)
  have b2: "text_of stale_page_world ''test.html'' = Some ''old''"
    by (simp add: text_of_def stale_page_world_def text_file_of_def)
  note t = render_output_determined_by_inputs [OF h1 h2 h3 h4 h5]
  from t h1 h2 h3 h4 h5 b1 b2 show ?thesis by simp
qed

end
